theory Spec2Isabelle
  imports Main "HOL-Library.FSet"
begin

section \<open>Data model of \<^verbatim>\<open>src/index.ts\<close>\<close>

text \<open>
  The identities, signatures and hashes of the source are JavaScript strings.
  The \<^verbatim>\<open>number\<close> fields that hold heights and timestamps only ever carry integers
  in the code (they start at \<open>0\<close> and are incremented by \<open>1\<close>), so they are modelled by
  \<open>int\<close>; the quorum threshold is a count and is modelled by \<open>nat\<close>.
\<close>

type_synonym ValidatorId = string
type_synonym Signature = string
type_synonym Hash = string

datatype MessageType = PREPARE | COMMIT | NEW_ROUND

text \<open>
  \<^verbatim>\<open>interface Transaction { id; data: any; signature }\<close>. The payload of type
  \<^verbatim>\<open>any\<close> is a type parameter; the fields \<^verbatim>\<open>id\<close> and \<^verbatim>\<open>signature\<close> carry the prefix
  \<open>tx_\<close> because \<open>id\<close> is the identity function of HOL and \<open>signature\<close> is also a
  field of the messages.
\<close>

record 'd Transaction =
  tx_id :: string
  data :: 'd
  tx_signature :: Signature

record 'd Block =
  height :: int
  previousHash :: Hash
  transactions :: "'d Transaction list"
  timestamp :: int
  proposer :: ValidatorId
  signatures :: "ValidatorId \<rightharpoonup> Signature"

record ConsensusMessage =
  type :: MessageType
  blockHeight :: int
  blockHash :: Hash
  validatorId :: ValidatorId
  signature :: Signature

text \<open>
  The private fields of \<^verbatim>\<open>class BFTConsensus\<close>. A JavaScript \<^verbatim>\<open>Set\<close> of strings is a
  finite set (its \<^verbatim>\<open>size\<close> is \<open>fcard\<close>); the code never iterates over one, so the
  insertion order is not observable. A \<^verbatim>\<open>Map<Hash, Set<ValidatorId>>\<close> is a partial
  map, and \<^verbatim>\<open>clear()\<close> makes it \<open>Map.empty\<close>.
\<close>

record BFTConsensus =
  validators :: "ValidatorId fset"
  prepareMessages :: "Hash \<rightharpoonup> ValidatorId fset"
  commitMessages :: "Hash \<rightharpoonup> ValidatorId fset"
  validatorId :: ValidatorId
  currentHeight :: int
  requiredConsensus :: nat

section \<open>The operations of the class\<close>

text \<open>
  Every method takes the object as \<open>this\<close> and returns it updated. What the code
  hands to \<^verbatim>\<open>broadcast\<close> (a \<^verbatim>\<open>console.log\<close> in the source) is returned as the list of
  messages emitted by the call, in order.
\<close>

definition constructor :: "ValidatorId \<Rightarrow> ValidatorId list \<Rightarrow> BFTConsensus" where
  "constructor vid initialValidators =
     (let vs = fset_of_list initialValidators in
      \<lparr> validators = vs,
        prepareMessages = Map.empty,
        commitMessages = Map.empty,
        validatorId = vid,
        currentHeight = 0,
        requiredConsensus = (fcard vs * 2) div 3 + 1 \<rparr>)"

definition verifyMessage :: "BFTConsensus \<Rightarrow> ConsensusMessage \<Rightarrow> bool" where
  "verifyMessage this message \<longleftrightarrow>
     ConsensusMessage.validatorId message |\<in>| validators this"

definition getCurrentBlockHash :: "BFTConsensus \<Rightarrow> Hash" where
  "getCurrentBlockHash this = ''placeholder_hash''"

definition sign :: "'a \<Rightarrow> Signature" where
  "sign payload = ''placeholder_signature''"

definition broadcast :: "ConsensusMessage \<Rightarrow> ConsensusMessage list" where
  "broadcast message = [message]"

definition broadcastPrepare :: "BFTConsensus \<Rightarrow> 'd Block \<Rightarrow> ConsensusMessage list" where
  "broadcastPrepare this block =
     broadcast \<lparr> type = PREPARE,
                 blockHeight = height block,
                 blockHash = getCurrentBlockHash this,
                 ConsensusMessage.validatorId = validatorId this,
                 signature = sign block \<rparr>"

definition broadcastCommit :: "BFTConsensus \<Rightarrow> Hash \<Rightarrow> ConsensusMessage list" where
  "broadcastCommit this h =
     broadcast \<lparr> type = COMMIT,
                 blockHeight = currentHeight this + 1,
                 blockHash = h,
                 ConsensusMessage.validatorId = validatorId this,
                 signature = sign h \<rparr>"

text \<open>
  \<^verbatim>\<open>proposeBlock\<close> reads the clock (\<^verbatim>\<open>Date.now()\<close>), which is the argument \<open>now\<close>.
  It returns the block, the object and the messages emitted.
\<close>

definition proposeBlock ::
  "BFTConsensus \<Rightarrow> 'd Transaction list \<Rightarrow> int \<Rightarrow> 'd Block \<times> BFTConsensus \<times> ConsensusMessage list"
where
  "proposeBlock this txs now =
     (let block = \<lparr> height = currentHeight this + 1,
                     previousHash = getCurrentBlockHash this,
                     transactions = txs,
                     timestamp = now,
                     proposer = validatorId this,
                     signatures = Map.empty \<rparr>
      in (block, this, broadcastPrepare this block))"

definition finalizeBlock :: "BFTConsensus \<Rightarrow> Hash \<Rightarrow> BFTConsensus \<times> ConsensusMessage list" where
  "finalizeBlock this h =
     (let this1 = this\<lparr>currentHeight := currentHeight this + 1\<rparr>;
          this2 = this1\<lparr>prepareMessages := Map.empty\<rparr>;
          this3 = this2\<lparr>commitMessages := Map.empty\<rparr>
      in (this3,
          broadcast \<lparr> type = NEW_ROUND,
                      blockHeight = currentHeight this3 + 1,
                      blockHash = '''',
                      ConsensusMessage.validatorId = validatorId this3,
                      signature = '''' \<rparr>))"

definition startNewRound :: "BFTConsensus \<Rightarrow> int \<Rightarrow> BFTConsensus" where
  "startNewRound this h =
     (if h \<le> currentHeight this then this
      else this\<lparr>prepareMessages := Map.empty, commitMessages := Map.empty\<rparr>)"

text \<open>
  \<open>voters t h\<close> is the set that \<^verbatim>\<open>t.get(h)!\<close> yields after the code has run
  \<^verbatim>\<open>if (!t.has(h)) t.set(h, new Set())\<close>: the set stored under \<open>h\<close>, or a new empty one.
\<close>

definition voters :: "(Hash \<rightharpoonup> ValidatorId fset) \<Rightarrow> Hash \<Rightarrow> ValidatorId fset" where
  "voters t h = (case t h of None \<Rightarrow> {||} | Some vs \<Rightarrow> vs)"

definition handlePrepareMessage ::
  "BFTConsensus \<Rightarrow> ConsensusMessage \<Rightarrow> BFTConsensus \<times> ConsensusMessage list"
where
  "handlePrepareMessage this message =
     (if \<not> verifyMessage this message then (this, [])
      else
        let prepares = finsert (ConsensusMessage.validatorId message)
                         (voters (prepareMessages this) (blockHash message));
            this1 = this\<lparr>prepareMessages := (prepareMessages this)(blockHash message \<mapsto> prepares)\<rparr>
        in if fcard prepares \<ge> requiredConsensus this1
           then (this1, broadcastCommit this1 (blockHash message))
           else (this1, []))"

definition handleCommitMessage ::
  "BFTConsensus \<Rightarrow> ConsensusMessage \<Rightarrow> BFTConsensus \<times> ConsensusMessage list"
where
  "handleCommitMessage this message =
     (if \<not> verifyMessage this message then (this, [])
      else
        let commits = finsert (ConsensusMessage.validatorId message)
                        (voters (commitMessages this) (blockHash message));
            this1 = this\<lparr>commitMessages := (commitMessages this)(blockHash message \<mapsto> commits)\<rparr>
        in if fcard commits \<ge> requiredConsensus this1
           then finalizeBlock this1 (blockHash message)
           else (this1, []))"

definition handleConsensusMessage ::
  "BFTConsensus \<Rightarrow> ConsensusMessage \<Rightarrow> BFTConsensus \<times> ConsensusMessage list"
where
  "handleConsensusMessage this message =
     (case type message of
        PREPARE \<Rightarrow> handlePrepareMessage this message
      | COMMIT \<Rightarrow> handleCommitMessage this message
      | NEW_ROUND \<Rightarrow> (startNewRound this (blockHeight message), []))"

text \<open>
  A run of the engine: the messages of a list are handled one after the other, as the
  drivers at the end of the source file do, and the emitted messages are collected.
\<close>

fun deliver :: "BFTConsensus \<Rightarrow> ConsensusMessage list \<Rightarrow> BFTConsensus \<times> ConsensusMessage list" where
  "deliver this [] = (this, [])"
| "deliver this (m # ms) =
     (let (this1, out1) = handleConsensusMessage this m;
          (this2, out2) = deliver this1 ms
      in (this2, out1 @ out2))"

text \<open>The number of distinct validators recorded for a hash in a tally.\<close>

definition count :: "(Hash \<rightharpoonup> ValidatorId fset) \<Rightarrow> Hash \<Rightarrow> nat" where
  "count t h = fcard (voters t h)"

section \<open>Concrete engines and messages\<close>

text \<open>The four validators of the source's own simulation, and messages sent by them.\<close>

definition validators4 :: "ValidatorId list" where
  "validators4 = [''validator1'', ''validator2'', ''validator3'', ''validator4'']"

definition validator1Consensus :: BFTConsensus where
  "validator1Consensus = constructor ''validator1'' validators4"

definition msg :: "MessageType \<Rightarrow> int \<Rightarrow> Hash \<Rightarrow> ValidatorId \<Rightarrow> ConsensusMessage" where
  "msg t n h v =
     \<lparr> type = t, blockHeight = n, blockHash = h,
       ConsensusMessage.validatorId = v, signature = ''signature'' \<rparr>"

text \<open>
  The engine of \<open>validator1\<close> after it has handled the COMMIT votes of three of the four
  validators for one hash: the third vote completes the quorum of \<open>3\<close>, so the block is
  finalized and the engine is at height \<open>1\<close> with empty tallies.
\<close>

definition afterCommits :: BFTConsensus where
  "afterCommits = fst (deliver validator1Consensus
     [msg COMMIT 1 ''h'' ''validator1'', msg COMMIT 1 ''h'' ''validator2'',
      msg COMMIT 1 ''h'' ''validator3''])"

text \<open>The same engine after \<open>validator2\<close> has voted PREPARE, or COMMIT, for the hash \<open>A\<close>.\<close>

definition preparedA :: BFTConsensus where
  "preparedA = fst (deliver validator1Consensus [msg PREPARE 1 ''A'' ''validator2''])"

definition committedA :: BFTConsensus where
  "committedA = fst (deliver validator1Consensus [msg COMMIT 1 ''A'' ''validator2''])"

text \<open>The engine one COMMIT vote short of the quorum for the hash \<open>h\<close>.\<close>

definition twoCommits :: BFTConsensus where
  "twoCommits = fst (deliver validator1Consensus
     [msg COMMIT 1 ''h'' ''validator2'', msg COMMIT 1 ''h'' ''validator3''])"

text \<open>PREPARE votes of all four validators for the hash \<open>h\<close>.\<close>

definition fourPrepares :: "ConsensusMessage list" where
  "fourPrepares =
     [msg PREPARE 1 ''h'' ''validator1'', msg PREPARE 1 ''h'' ''validator2'',
      msg PREPARE 1 ''h'' ''validator3'', msg PREPARE 1 ''h'' ''validator4'']"

section \<open>Basic facts\<close>

lemmas engine_defs = handleConsensusMessage_def handlePrepareMessage_def handleCommitMessage_def
  verifyMessage_def finalizeBlock_def startNewRound_def broadcastCommit_def broadcast_def
  voters_def count_def Let_def

lemmas concrete_defs = validator1Consensus_def validators4_def constructor_def msg_def
  fcard_finsert_if fcard_fempty sign_def

lemma validator1Consensus_eq:
  "validator1Consensus =
     \<lparr> validators = {|''validator1'', ''validator2'', ''validator3'', ''validator4''|},
       prepareMessages = Map.empty, commitMessages = Map.empty,
       validatorId = ''validator1'', currentHeight = 0, requiredConsensus = 3 \<rparr>"
  by (simp add: concrete_defs)

lemma afterCommits_eq: "afterCommits = validator1Consensus\<lparr>currentHeight := 1\<rparr>"
  by (simp add: afterCommits_def engine_defs concrete_defs)

lemma preparedA_eq:
  "preparedA = validator1Consensus\<lparr>prepareMessages := [''A'' \<mapsto> {|''validator2''|}]\<rparr>"
  by (simp add: preparedA_def engine_defs concrete_defs)

lemma committedA_eq:
  "committedA = validator1Consensus\<lparr>commitMessages := [''A'' \<mapsto> {|''validator2''|}]\<rparr>"
  by (simp add: committedA_def engine_defs concrete_defs)

lemma twoCommits_eq:
  "twoCommits = validator1Consensus
     \<lparr>commitMessages := [''h'' \<mapsto> {|''validator3'', ''validator2''|}]\<rparr>"
  by (simp add: twoCommits_def engine_defs concrete_defs)


lemma requiredConsensus_handlePrepareMessage:
  "requiredConsensus (fst (handlePrepareMessage this message)) = requiredConsensus this"
  by (simp add: handlePrepareMessage_def Let_def)

lemma requiredConsensus_handleCommitMessage:
  "requiredConsensus (fst (handleCommitMessage this message)) = requiredConsensus this"
  by (simp add: handleCommitMessage_def finalizeBlock_def Let_def)

lemma requiredConsensus_handleConsensusMessage:
  "requiredConsensus (fst (handleConsensusMessage this message)) = requiredConsensus this"
  by (cases "type message")
     (simp_all add: handleConsensusMessage_def startNewRound_def
        requiredConsensus_handlePrepareMessage requiredConsensus_handleCommitMessage)

lemma requiredConsensus_deliver:
  "requiredConsensus (fst (deliver this ms)) = requiredConsensus this"
proof (induction ms arbitrary: this)
  case Nil
  show ?case by simp
next
  case (Cons m ms)
  obtain this1 out1 where h: "handleConsensusMessage this m = (this1, out1)"
    by (cases "handleConsensusMessage this m")
  have "requiredConsensus this1 = requiredConsensus this"
    using requiredConsensus_handleConsensusMessage [of this m] h by simp
  with Cons.IH [of this1] h show ?case
    by (simp add: split_beta)
qed

lemma fcard_fset_of_list: "fcard (fset_of_list xs) = card (set xs)"
  by (simp add: fcard.rep_eq fset_of_list.rep_eq)

lemma handlePrepareMessage_member:
  assumes "type m = PREPARE" and "ConsensusMessage.validatorId m |\<in>| validators this"
  shows "handleConsensusMessage this m =
     (this\<lparr>prepareMessages := (prepareMessages this)(blockHash m \<mapsto>
          finsert (ConsensusMessage.validatorId m) (voters (prepareMessages this) (blockHash m)))\<rparr>,
      if requiredConsensus this \<le> fcard (finsert (ConsensusMessage.validatorId m)
            (voters (prepareMessages this) (blockHash m)))
      then broadcastCommit this (blockHash m) else [])"
  using assms by (simp add: engine_defs)

lemma unknown_validator_vote_dropped:
  assumes "type m \<noteq> NEW_ROUND" and "ConsensusMessage.validatorId m |\<notin>| validators this"
  shows "handleConsensusMessage this m = (this, [])"
  using assms by (cases "type m") (simp_all add: engine_defs)

lemma handlePrepareMessage_twice:
  "fst (handlePrepareMessage (fst (handlePrepareMessage this m)) m)
     = fst (handlePrepareMessage this m)"
  by (simp add: engine_defs)

lemma handlePrepareMessage_twice_out:
  "count (prepareMessages (fst (handlePrepareMessage this m))) (blockHash m) < requiredConsensus this
    \<Longrightarrow> snd (handlePrepareMessage (fst (handlePrepareMessage this m)) m) = []"
  by (cases "ConsensusMessage.validatorId m |\<in>| validators this";
      cases "requiredConsensus this \<le> fcard (finsert (ConsensusMessage.validatorId m)
            (voters (prepareMessages this) (blockHash m)))")
     (simp_all add: engine_defs)

lemma handleCommitMessage_twice:
  "currentHeight (fst (handleCommitMessage this m)) = currentHeight this
    \<Longrightarrow> handleCommitMessage (fst (handleCommitMessage this m)) m
          = (fst (handleCommitMessage this m), [])"
  by (simp add: engine_defs split: if_splits)

section \<open>Votes of one validator for two hashes\<close>

text \<open>
  Claim C1, as stated, fails. In the engine of \<open>validator1\<close>, \<open>validator2\<close> votes PREPARE
  for the hash \<open>A\<close> and then for the hash \<open>B\<close>: the first vote is in the tally of \<open>A\<close>,
  and after the second message the tally of \<open>B\<close> contains \<open>validator2\<close> as well.
\<close>

theorem equivocation_counterexample:
  "''validator2'' |\<in>| voters (prepareMessages (fst (deliver validator1Consensus
       [msg PREPARE 1 ''A'' ''validator2'']))) ''A''
   \<and> ''validator2'' |\<in>| voters (prepareMessages (fst (deliver validator1Consensus
       [msg PREPARE 1 ''A'' ''validator2'', msg PREPARE 1 ''B'' ''validator2'']))) ''B''"
  by (simp add: engine_defs concrete_defs)

text \<open>
  Claim C1, amended. The tallies are kept per hash and a vote is never compared with the
  votes for other hashes. When a member of the validator set that is recorded for a
  hash \<open>a\<close> votes for a different hash in the same phase, the vote is recorded like a
  first vote: for PREPARE, the tally of \<open>a\<close> still contains the validator, the tally of
  the new hash contains it too, and the COMMIT message for the new hash is emitted
  exactly when the count of the new hash, with this vote, is at or above the threshold,
  and nothing otherwise; for COMMIT the same holds, with nothing emitted, as long as the
  new hash stays below the quorum threshold.
\<close>

theorem second_hash_vote_recorded:
  assumes "ConsensusMessage.validatorId m |\<in>| validators this"
    and "blockHash m \<noteq> a"
  shows "(type m = PREPARE \<and> ConsensusMessage.validatorId m |\<in>| voters (prepareMessages this) a \<longrightarrow>
            ConsensusMessage.validatorId m
              |\<in>| voters (prepareMessages (fst (handleConsensusMessage this m))) a
          \<and> ConsensusMessage.validatorId m
              |\<in>| voters (prepareMessages (fst (handleConsensusMessage this m))) (blockHash m)
          \<and> snd (handleConsensusMessage this m)
              = (if requiredConsensus this
                      \<le> fcard (finsert (ConsensusMessage.validatorId m)
                            (voters (prepareMessages this) (blockHash m)))
                 then broadcastCommit this (blockHash m) else []))
       \<and> (type m = COMMIT \<and> ConsensusMessage.validatorId m |\<in>| voters (commitMessages this) a
            \<and> fcard (finsert (ConsensusMessage.validatorId m)
                  (voters (commitMessages this) (blockHash m))) < requiredConsensus this \<longrightarrow>
            ConsensusMessage.validatorId m
              |\<in>| voters (commitMessages (fst (handleConsensusMessage this m))) a
          \<and> ConsensusMessage.validatorId m
              |\<in>| voters (commitMessages (fst (handleConsensusMessage this m))) (blockHash m)
          \<and> snd (handleConsensusMessage this m) = [])"
  using assms by (simp add: engine_defs)

theorem second_hash_vote_recorded_witness:
  "''validator2'' |\<in>| validators preparedA
   \<and> ''validator2'' |\<in>| voters (prepareMessages preparedA) ''A''
   \<and> ''validator2'' |\<in>| voters (prepareMessages
         (fst (handleConsensusMessage preparedA (msg PREPARE 1 ''B'' ''validator2'')))) ''A''
   \<and> ''validator2'' |\<in>| voters (prepareMessages
         (fst (handleConsensusMessage preparedA (msg PREPARE 1 ''B'' ''validator2'')))) ''B''
   \<and> snd (handleConsensusMessage preparedA (msg PREPARE 1 ''B'' ''validator2'')) = []
   \<and> ''validator2'' |\<in>| voters (commitMessages committedA) ''A''
   \<and> ''validator2'' |\<in>| voters (commitMessages
         (fst (handleConsensusMessage committedA (msg COMMIT 1 ''B'' ''validator2'')))) ''A''
   \<and> ''validator2'' |\<in>| voters (commitMessages
         (fst (handleConsensusMessage committedA (msg COMMIT 1 ''B'' ''validator2'')))) ''B''"
proof -
  have p1: "ConsensusMessage.validatorId (msg PREPARE 1 ''B'' ''validator2'') |\<in>| validators preparedA"
    by (simp add: preparedA_eq validator1Consensus_eq msg_def)
  have c1: "ConsensusMessage.validatorId (msg COMMIT 1 ''B'' ''validator2'') |\<in>| validators committedA"
    by (simp add: committedA_eq validator1Consensus_eq msg_def)
  have p2: "blockHash (msg PREPARE 1 ''B'' ''validator2'') \<noteq> ''A''"
    and c2: "blockHash (msg COMMIT 1 ''B'' ''validator2'') \<noteq> ''A''"
    by (simp_all add: msg_def)
  have p3: "''validator2'' |\<in>| voters (prepareMessages preparedA) ''A''"
    by (simp add: preparedA_eq voters_def)
  have c3: "''validator2'' |\<in>| voters (commitMessages committedA) ''A''"
    by (simp add: committedA_eq voters_def)
  have c4: "fcard (finsert ''validator2'' (voters (commitMessages committedA) ''B''))
              < requiredConsensus committedA"
    by (simp add: committedA_eq validator1Consensus_eq voters_def fcard_finsert_if fcard_fempty)
  have p4: "\<not> requiredConsensus preparedA
              \<le> fcard (finsert ''validator2'' (voters (prepareMessages preparedA) ''B''))"
    by (simp add: preparedA_eq validator1Consensus_eq voters_def fcard_finsert_if fcard_fempty)
  show ?thesis
    using second_hash_vote_recorded [OF p1 p2] second_hash_vote_recorded [OF c1 c2]
      p1 p3 p4 c3 c4
    by (simp add: msg_def)
qed

section \<open>Messages below the current height\<close>

text \<open>
  Claim C2, as stated, fails. The engine \<open>afterCommits\<close> is at height \<open>1\<close> and has no
  PREPARE tally for the hash \<open>h\<close>. A PREPARE message of the member \<open>validator2\<close> with
  height \<open>0\<close>, strictly below the current height, creates that tally.
\<close>

theorem stale_counterexample:
  "currentHeight afterCommits = 1
   \<and> blockHeight (msg PREPARE 0 ''h'' ''validator2'') < currentHeight afterCommits
   \<and> prepareMessages afterCommits ''h'' = None
   \<and> prepareMessages (fst (handleConsensusMessage afterCommits (msg PREPARE 0 ''h'' ''validator2'')))
        ''h'' = Some {|''validator2''|}"
  by (simp add: afterCommits_eq validator1Consensus_eq engine_defs msg_def)

text \<open>
  Claim C2, amended. The height of a message is compared with the current height for
  NEW_ROUND only. For every engine state and every message whose height is strictly
  below the current height: a NEW_ROUND message leaves the whole state, hence every
  tally, unchanged and emits nothing; a PREPARE or COMMIT message is handled without
  regard to its height, that is exactly like the same message with any other height \<open>n\<close>.
\<close>

theorem stale_new_round_dropped:
  assumes "blockHeight m < currentHeight this"
  shows "(type m = NEW_ROUND \<longrightarrow> handleConsensusMessage this m = (this, []))
       \<and> (type m \<noteq> NEW_ROUND \<longrightarrow>
            handleConsensusMessage this m = handleConsensusMessage this (m\<lparr>blockHeight := n\<rparr>))"
  using assms by (cases "type m") (simp_all add: engine_defs)

theorem stale_new_round_dropped_witness:
  "blockHeight (msg NEW_ROUND 0 '''' ''validator2'') < currentHeight afterCommits
   \<and> handleConsensusMessage afterCommits (msg NEW_ROUND 0 '''' ''validator2'') = (afterCommits, [])
   \<and> blockHeight (msg PREPARE 0 ''h'' ''validator2'') < currentHeight afterCommits
   \<and> handleConsensusMessage afterCommits (msg PREPARE 0 ''h'' ''validator2'')
       = handleConsensusMessage afterCommits (msg PREPARE 2 ''h'' ''validator2'')"
proof -
  have n: "blockHeight (msg NEW_ROUND 0 '''' ''validator2'') < currentHeight afterCommits"
    and p: "blockHeight (msg PREPARE 0 ''h'' ''validator2'') < currentHeight afterCommits"
    by (simp_all add: afterCommits_eq msg_def)
  have u: "(msg PREPARE 0 ''h'' ''validator2'')\<lparr>blockHeight := 2\<rparr> = msg PREPARE 2 ''h'' ''validator2''"
    by (simp add: msg_def)
  show ?thesis
    using stale_new_round_dropped [OF n] stale_new_round_dropped [OF p, where n = 2] n p u
    by (simp add: msg_def)
qed

section \<open>The PREPARE quorum\<close>

text \<open>
  Claim C3, as stated, fails. With four validators the threshold is \<open>3\<close>. The PREPARE
  votes of \<open>validator1\<close>, \<open>validator2\<close> and \<open>validator3\<close> for the hash \<open>h\<close> emit one
  COMMIT message, at the third vote; the vote of \<open>validator4\<close>, handled next, emits the
  same COMMIT message again.
\<close>

theorem prepare_quorum_counterexample:
  "snd (deliver validator1Consensus
      [msg PREPARE 1 ''h'' ''validator1'', msg PREPARE 1 ''h'' ''validator2'',
       msg PREPARE 1 ''h'' ''validator3''])
     = broadcastCommit validator1Consensus ''h''
   \<and> snd (handleConsensusMessage (fst (deliver validator1Consensus
      [msg PREPARE 1 ''h'' ''validator1'', msg PREPARE 1 ''h'' ''validator2'',
       msg PREPARE 1 ''h'' ''validator3''])) (msg PREPARE 1 ''h'' ''validator4''))
     = broadcastCommit validator1Consensus ''h''
   \<and> broadcastCommit validator1Consensus ''h'' \<noteq> []"
  by (simp add: engine_defs concrete_defs)

text \<open>
  Claim C3, amended. The engine keeps no phase; the COMMIT is emitted by every accepted
  PREPARE vote that finds the count of its hash at or above the threshold. For every
  sequence \<open>ms\<close> of PREPARE votes for one hash \<open>h\<close>, sent by distinct members of the
  validator set that are not yet recorded for \<open>h\<close>, the engine emits the COMMIT message
  for \<open>h\<close> once for the vote that brings the count to the threshold and once more for
  each vote after it: with \<open>c\<close> votes recorded before and threshold \<open>t\<close> that is
  \<open>c + length ms + 1 - max (c + 1) t\<close> copies, and nothing else.
\<close>

theorem commit_emitted_per_vote_at_quorum:
  assumes "\<forall>m\<in>set ms. type m = PREPARE \<and> blockHash m = h
             \<and> ConsensusMessage.validatorId m |\<in>| validators this
             \<and> ConsensusMessage.validatorId m |\<notin>| voters (prepareMessages this) h"
    and "distinct (map ConsensusMessage.validatorId ms)"
  shows "snd (deliver this ms)
           = concat (replicate
               (count (prepareMessages this) h + length ms + 1
                  - max (count (prepareMessages this) h + 1) (requiredConsensus this))
               (broadcastCommit this h))"
  using assms
proof (induction ms arbitrary: this)
  case Nil
  show ?case by simp
next
  case (Cons m ms)
  let ?v = "ConsensusMessage.validatorId m"
  let ?P = "finsert ?v (voters (prepareMessages this) h)"
  let ?this1 = "this\<lparr>prepareMessages := (prepareMessages this)(h \<mapsto> ?P)\<rparr>"
  let ?out1 = "if requiredConsensus this \<le> fcard ?P then broadcastCommit this h else []"
  from Cons.prems have m: "type m = PREPARE" "blockHash m = h" "?v |\<in>| validators this"
    "?v |\<notin>| voters (prepareMessages this) h"
    by simp_all
  have step: "handleConsensusMessage this m = (?this1, ?out1)"
    using handlePrepareMessage_member [of m this] m by simp
  have v1: "voters (prepareMessages ?this1) h = ?P"
    by (simp add: voters_def)
  have c1: "count (prepareMessages ?this1) h = Suc (count (prepareMessages this) h)"
    using m by (simp add: count_def voters_def fcard_finsert_if)
  have pre: "\<forall>x\<in>set ms. type x = PREPARE \<and> blockHash x = h
             \<and> ConsensusMessage.validatorId x |\<in>| validators ?this1
             \<and> ConsensusMessage.validatorId x |\<notin>| voters (prepareMessages ?this1) h"
    using Cons.prems unfolding v1 by (fastforce simp: image_iff)
  have dist: "distinct (map ConsensusMessage.validatorId ms)"
    using Cons.prems by simp
  have bc: "broadcastCommit ?this1 h = broadcastCommit this h"
    by (simp add: broadcastCommit_def)
  have rc: "requiredConsensus ?this1 = requiredConsensus this"
    by simp
  have ih: "snd (deliver ?this1 ms)
      = concat (replicate
          (Suc (count (prepareMessages this) h) + length ms + 1
             - max (Suc (count (prepareMessages this) h) + 1) (requiredConsensus this))
          (broadcastCommit this h))"
    using Cons.IH [OF pre dist] by (simp only: c1 bc rc)
  have fc: "fcard ?P = Suc (count (prepareMessages this) h)"
    using m by (simp add: count_def fcard_finsert_if)
  have out: "snd (deliver this (m # ms)) = ?out1 @ snd (deliver ?this1 ms)"
    using step by (simp add: split_beta)
  show ?case
  proof (cases "requiredConsensus this \<le> Suc (count (prepareMessages this) h)")
    case True
    then have "count (prepareMessages this) h + length (m # ms) + 1
                 - max (count (prepareMessages this) h + 1) (requiredConsensus this)
               = Suc (Suc (count (prepareMessages this) h) + length ms + 1
                   - max (Suc (count (prepareMessages this) h) + 1) (requiredConsensus this))"
      by (simp add: max_def)
    with True show ?thesis
      unfolding out ih fc by simp
  next
    case False
    then have "count (prepareMessages this) h + length (m # ms) + 1
                 - max (count (prepareMessages this) h + 1) (requiredConsensus this)
               = Suc (count (prepareMessages this) h) + length ms + 1
                   - max (Suc (count (prepareMessages this) h) + 1) (requiredConsensus this)"
      by (simp add: max_def)
    with False show ?thesis
      unfolding out ih fc by simp
  qed
qed

theorem commit_emitted_per_vote_at_quorum_witness:
  "distinct (map ConsensusMessage.validatorId fourPrepares)
   \<and> snd (deliver validator1Consensus fourPrepares)
       = broadcastCommit validator1Consensus ''h'' @ broadcastCommit validator1Consensus ''h''"
proof -
  have a: "\<forall>m\<in>set fourPrepares. type m = PREPARE \<and> blockHash m = ''h''
             \<and> ConsensusMessage.validatorId m |\<in>| validators validator1Consensus
             \<and> ConsensusMessage.validatorId m |\<notin>| voters (prepareMessages validator1Consensus) ''h''"
    by (simp add: fourPrepares_def msg_def validator1Consensus_eq voters_def)
  have d: "distinct (map ConsensusMessage.validatorId fourPrepares)"
    by (simp add: fourPrepares_def msg_def)
  have k: "count (prepareMessages validator1Consensus) ''h'' + length fourPrepares + 1
             - max (count (prepareMessages validator1Consensus) ''h'' + 1)
                 (requiredConsensus validator1Consensus) = 2"
    by (simp add: fourPrepares_def validator1Consensus_eq count_def voters_def fcard_fempty)
  have r: "concat (replicate 2 xs) = xs @ xs" for xs :: "ConsensusMessage list"
    by (simp add: numeral_2_eq_2)
  show ?thesis
    using commit_emitted_per_vote_at_quorum [OF a d] d unfolding k r by simp
qed

section \<open>The quorum threshold\<close>

text \<open>
  Claim C4. For every initial validator list the threshold \<open>requiredConsensus\<close> set by
  the constructor is \<open>\<lfloor>2n/3\<rfloor> + 1\<close>, where \<open>n\<close> is the number of distinct identities
  in the list, and it keeps that value: neither handling any sequence of messages nor
  proposing a block changes it.
\<close>

theorem requiredConsensus_fixed:
  "requiredConsensus (constructor vid vs) = 2 * card (set vs) div 3 + 1
   \<and> requiredConsensus (fst (deliver (constructor vid vs) ms)) = 2 * card (set vs) div 3 + 1
   \<and> requiredConsensus (fst (snd (proposeBlock (fst (deliver (constructor vid vs) ms)) txs now)))
       = 2 * card (set vs) div 3 + 1"
proof -
  have c: "requiredConsensus (constructor vid vs) = 2 * card (set vs) div 3 + 1"
    by (simp add: constructor_def Let_def fcard_fset_of_list mult.commute)
  have d: "requiredConsensus (fst (deliver (constructor vid vs) ms)) = 2 * card (set vs) div 3 + 1"
    using requiredConsensus_deliver [of "constructor vid vs" ms] c by simp
  have p: "fst (snd (proposeBlock this txs now)) = this" for this :: BFTConsensus
    by (simp add: proposeBlock_def Let_def)
  from c d p show ?thesis by simp
qed

theorem requiredConsensus_fixed_witness:
  "requiredConsensus (constructor ''validator1''
      [''validator1'', ''validator2'', ''validator2'', ''validator3'', ''validator4'']) = 3"
proof -
  have "card (set [''validator1'', ''validator2'', ''validator2'', ''validator3'', ''validator4''])
          = 4"
    by simp
  then show ?thesis
    using requiredConsensus_fixed [where vid = "''validator1''" and ms = "[]"
      and txs = "[] :: unit Transaction list" and now = 0
      and vs = "[''validator1'', ''validator2'', ''validator2'', ''validator3'', ''validator4'']"]
    by simp
qed

section \<open>NEW_ROUND\<close>

text \<open>
  Claim C5, as stated, fails. The engine \<open>afterCommits\<close> is at height \<open>1\<close>; after it
  has handled a NEW_ROUND message for height \<open>3\<close> its current height is still \<open>1\<close>.
\<close>

theorem new_round_height_counterexample:
  "currentHeight afterCommits = 1
   \<and> currentHeight
       (fst (handleConsensusMessage afterCommits (msg NEW_ROUND 3 '''' ''validator2''))) = 1"
  by (simp add: afterCommits_eq validator1Consensus_eq engine_defs msg_def)

text \<open>
  Claim C5, amended. For every engine state, handling a NEW_ROUND message of a member of
  the validator set whose height strictly exceeds the current height clears the prepare
  tallies and the commit tallies, emits nothing and changes nothing else: the current
  height stays as it is (it advances at finalization only).
\<close>

theorem new_round_clears_tallies:
  assumes "type m = NEW_ROUND"
    and "ConsensusMessage.validatorId m |\<in>| validators this"
    and "currentHeight this < blockHeight m"
  shows "handleConsensusMessage this m
           = (this\<lparr>prepareMessages := Map.empty, commitMessages := Map.empty\<rparr>, [])
       \<and> currentHeight (fst (handleConsensusMessage this m)) = currentHeight this"
  using assms by (simp add: engine_defs)

theorem new_round_clears_tallies_witness:
  "currentHeight preparedA < blockHeight (msg NEW_ROUND 3 '''' ''validator2'')
   \<and> prepareMessages preparedA ''A'' = Some {|''validator2''|}
   \<and> handleConsensusMessage preparedA (msg NEW_ROUND 3 '''' ''validator2'')
       = (validator1Consensus, [])"
proof -
  have t: "type (msg NEW_ROUND 3 '''' ''validator2'') = NEW_ROUND"
    by (simp add: msg_def)
  have v: "ConsensusMessage.validatorId (msg NEW_ROUND 3 '''' ''validator2'') |\<in>| validators preparedA"
    by (simp add: msg_def preparedA_eq validator1Consensus_eq)
  have h: "currentHeight preparedA < blockHeight (msg NEW_ROUND 3 '''' ''validator2'')"
    by (simp add: msg_def preparedA_eq validator1Consensus_eq)
  show ?thesis
    using new_round_clears_tallies [OF t v h] h
    by (simp add: preparedA_eq validator1Consensus_eq)
qed

section \<open>Finalization\<close>

text \<open>
  Claim C6. When a COMMIT vote of a member of the validator set brings the commit tally
  of its hash to the quorum threshold, the block is finalized: the current height
  increases by exactly \<open>1\<close>, all prepare and commit tallies are discarded, and exactly one
  message is broadcast, a NEW_ROUND whose height is the new current height plus \<open>1\<close>.
  The new current height is the height of the finalized block (the height that
  \<open>proposeBlock\<close> gives to a block proposed in the state before), so the NEW_ROUND is
  for one above the finalized height.
\<close>

theorem commit_quorum_finalizes:
  assumes "type m = COMMIT"
    and "ConsensusMessage.validatorId m |\<in>| validators this"
    and "requiredConsensus this
           \<le> fcard (finsert (ConsensusMessage.validatorId m) (voters (commitMessages this) (blockHash m)))"
  shows "handleConsensusMessage this m
           = (this\<lparr>currentHeight := currentHeight this + 1,
                    prepareMessages := Map.empty, commitMessages := Map.empty\<rparr>,
              [\<lparr> type = NEW_ROUND,
                  blockHeight = height (fst (proposeBlock this txs now)) + 1,
                  blockHash = '''',
                  ConsensusMessage.validatorId = validatorId this, signature = '''' \<rparr>])
       \<and> height (fst (proposeBlock this txs now)) = currentHeight this + 1"
  using assms by (simp add: engine_defs proposeBlock_def)

theorem commit_quorum_finalizes_witness:
  "count (commitMessages twoCommits) ''h'' = 2
   \<and> currentHeight twoCommits = 0
   \<and> handleConsensusMessage twoCommits (msg COMMIT 1 ''h'' ''validator1'')
       = (validator1Consensus\<lparr>currentHeight := 1\<rparr>,
          [\<lparr> type = NEW_ROUND, blockHeight = 2, blockHash = '''',
              ConsensusMessage.validatorId = ''validator1'', signature = '''' \<rparr>])"
proof -
  have t: "type (msg COMMIT 1 ''h'' ''validator1'') = COMMIT"
    by (simp add: msg_def)
  have v: "ConsensusMessage.validatorId (msg COMMIT 1 ''h'' ''validator1'') |\<in>| validators twoCommits"
    by (simp add: msg_def twoCommits_eq validator1Consensus_eq)
  have q: "requiredConsensus twoCommits
           \<le> fcard (finsert (ConsensusMessage.validatorId (msg COMMIT 1 ''h'' ''validator1''))
               (voters (commitMessages twoCommits) (blockHash (msg COMMIT 1 ''h'' ''validator1''))))"
    by (simp add: msg_def twoCommits_eq validator1Consensus_eq voters_def fcard_finsert_if fcard_fempty)
  have c: "count (commitMessages twoCommits) ''h'' = 2"
    by (simp add: twoCommits_eq count_def voters_def fcard_finsert_if fcard_fempty)
  show ?thesis
    using commit_quorum_finalizes [OF t v q, where txs = "[] :: unit Transaction list" and now = 0] c
    by (simp add: twoCommits_eq validator1Consensus_eq)
qed

section \<open>Messages of unknown validators\<close>

text \<open>
  Claim C7 holds for PREPARE and COMMIT (lemma \<open>unknown_validator_vote_dropped\<close>) and
  fails for NEW_ROUND, which \<open>handleConsensusMessage\<close> passes to \<open>startNewRound\<close> without
  the \<open>verifyMessage\<close> check that the two other handlers make. Here \<open>intruder\<close> is not
  in the validator set of the engine, the engine holds a PREPARE vote of \<open>validator2\<close>,
  and a NEW_ROUND message of \<open>intruder\<close> for height \<open>2\<close> removes that tally.
\<close>

theorem new_round_from_unknown_validator:
  "''intruder'' |\<notin>| validators (fst (deliver validator1Consensus
       [msg PREPARE 1 ''placeholder_hash'' ''validator2'']))
   \<and> prepareMessages (fst (deliver validator1Consensus
       [msg PREPARE 1 ''placeholder_hash'' ''validator2''])) ''placeholder_hash''
         = Some {|''validator2''|}
   \<and> prepareMessages (fst (deliver validator1Consensus
       [msg PREPARE 1 ''placeholder_hash'' ''validator2'', msg NEW_ROUND 2 '''' ''intruder'']))
         ''placeholder_hash'' = None"
  by (simp add: engine_defs concrete_defs)

section \<open>Proposing a block\<close>

text \<open>
  Claim C8, as stated, fails. A new engine proposes a block; when \<open>proposeBlock\<close> has
  returned, its prepare tally for the hash of the PREPARE message it emitted records no
  validator: the count is \<open>0\<close>, not \<open>1\<close>.
\<close>

theorem proposeBlock_not_recorded_counterexample:
  "count (prepareMessages
       (fst (snd (proposeBlock validator1Consensus ([] :: unit Transaction list) 0))))
     ''placeholder_hash'' = 0"
  by (simp add: proposeBlock_def engine_defs concrete_defs)

text \<open>
  Claim C8, amended. For every transaction list, \<open>proposeBlock\<close> returns a block whose
  height is the current height plus \<open>1\<close>, whose proposer is the engine's own validator
  id, whose signatures map is empty and whose transactions are the given ones; it
  broadcasts one PREPARE message for that height in the engine's own name, and it leaves
  the engine state unchanged: the vote is sent, not recorded in the engine's own tally.
\<close>

theorem proposeBlock_result:
  "height (fst (proposeBlock this txs now)) = currentHeight this + 1
   \<and> proposer (fst (proposeBlock this txs now)) = validatorId this
   \<and> signatures (fst (proposeBlock this txs now)) = Map.empty
   \<and> transactions (fst (proposeBlock this txs now)) = txs
   \<and> fst (snd (proposeBlock this txs now)) = this
   \<and> snd (snd (proposeBlock this txs now))
       = [\<lparr> type = PREPARE, blockHeight = currentHeight this + 1,
             blockHash = ''placeholder_hash'',
             ConsensusMessage.validatorId = validatorId this,
             signature = ''placeholder_signature'' \<rparr>]"
  by (simp add: proposeBlock_def broadcastPrepare_def broadcast_def getCurrentBlockHash_def
        sign_def Let_def)

theorem proposeBlock_result_witness:
  "height (fst (proposeBlock validator1Consensus ([] :: unit Transaction list) 0)) = 1
   \<and> proposer (fst (proposeBlock validator1Consensus ([] :: unit Transaction list) 0))
       = ''validator1''
   \<and> fst (snd (proposeBlock validator1Consensus ([] :: unit Transaction list) 0))
       = validator1Consensus"
  using proposeBlock_result
    [where this = validator1Consensus and txs = "[] :: unit Transaction list" and now = 0]
  by (simp add: validator1Consensus_eq)

section \<open>Duplicate votes\<close>

text \<open>
  Claim C9, as stated, fails. The engine holds the COMMIT votes of \<open>validator2\<close> and
  \<open>validator3\<close> for the hash \<open>h\<close>. The COMMIT vote of \<open>validator1\<close> completes the quorum
  and the tallies are cleared: the count for \<open>h\<close> is \<open>0\<close>. The same message handled a
  second time is recorded in the new tally: the count for \<open>h\<close> is \<open>1\<close>.
\<close>

theorem duplicate_commit_counterexample:
  "count (commitMessages (fst (deliver validator1Consensus
      [msg COMMIT 1 ''h'' ''validator2'', msg COMMIT 1 ''h'' ''validator3'',
       msg COMMIT 1 ''h'' ''validator1'']))) ''h'' = 0
   \<and> count (commitMessages (fst (deliver validator1Consensus
      [msg COMMIT 1 ''h'' ''validator2'', msg COMMIT 1 ''h'' ''validator3'',
       msg COMMIT 1 ''h'' ''validator1'', msg COMMIT 1 ''h'' ''validator1'']))) ''h'' = 1"
  by (simp add: engine_defs concrete_defs)

text \<open>
  Claim C9, amended. Recording a vote is idempotent unless the first handling finalizes
  the block. For every engine state, handling the same PREPARE vote a second time
  leaves the whole state, hence the count of its hash, as the first handling left it,
  and emits nothing when that count is below the threshold. Handling the same COMMIT
  vote a second time, when the first handling did not advance the height, leaves the
  whole state as it is and emits nothing.
\<close>

theorem duplicate_vote_idempotent:
  "(type m = PREPARE \<longrightarrow>
      fst (handleConsensusMessage (fst (handleConsensusMessage this m)) m)
        = fst (handleConsensusMessage this m)
      \<and> (count (prepareMessages (fst (handleConsensusMessage this m))) (blockHash m)
             < requiredConsensus this \<longrightarrow>
           snd (handleConsensusMessage (fst (handleConsensusMessage this m)) m) = []))
   \<and> (type m = COMMIT
        \<and> currentHeight (fst (handleConsensusMessage this m)) = currentHeight this \<longrightarrow>
      handleConsensusMessage (fst (handleConsensusMessage this m)) m
        = (fst (handleConsensusMessage this m), []))"
  using handlePrepareMessage_twice [of this m] handlePrepareMessage_twice_out [of this m]
    handleCommitMessage_twice [of this m]
  by (cases "type m") (simp_all add: handleConsensusMessage_def)

theorem duplicate_vote_idempotent_witness:
  "handleConsensusMessage preparedA (msg PREPARE 1 ''A'' ''validator2'') = (preparedA, [])
   \<and> count (prepareMessages preparedA) ''A'' = 1
   \<and> handleConsensusMessage committedA (msg COMMIT 1 ''A'' ''validator2'') = (committedA, [])
   \<and> count (commitMessages committedA) ''A'' = 1"
proof -
  have p: "fst (handleConsensusMessage validator1Consensus (msg PREPARE 1 ''A'' ''validator2''))
             = preparedA"
    by (simp add: preparedA_def split_beta)
  have c: "fst (handleConsensusMessage validator1Consensus (msg COMMIT 1 ''A'' ''validator2''))
             = committedA"
    by (simp add: committedA_def split_beta)
  have tp: "type (msg PREPARE 1 ''A'' ''validator2'') = PREPARE"
    and tc: "type (msg COMMIT 1 ''A'' ''validator2'') = COMMIT"
    and bp: "blockHash (msg PREPARE 1 ''A'' ''validator2'') = ''A''"
    by (simp_all add: msg_def)
  have np: "count (prepareMessages preparedA) ''A'' = 1"
    by (simp add: preparedA_eq count_def voters_def fcard_finsert_if fcard_fempty)
  have nc: "count (commitMessages committedA) ''A'' = 1"
    by (simp add: committedA_eq count_def voters_def fcard_finsert_if fcard_fempty)
  have hc: "currentHeight committedA = currentHeight validator1Consensus"
    by (simp add: committedA_eq)
  have rq: "requiredConsensus validator1Consensus = 3"
    by (simp add: validator1Consensus_eq)
  have "handleConsensusMessage preparedA (msg PREPARE 1 ''A'' ''validator2'') = (preparedA, [])"
    using duplicate_vote_idempotent
      [where this = validator1Consensus and m = "msg PREPARE 1 ''A'' ''validator2''"]
    unfolding p bp using tp np rq by (simp add: prod_eq_iff)
  moreover
  have "handleConsensusMessage committedA (msg COMMIT 1 ''A'' ''validator2'') = (committedA, [])"
    using duplicate_vote_idempotent
      [where this = validator1Consensus and m = "msg COMMIT 1 ''A'' ''validator2''"]
    unfolding c using tc hc by simp
  ultimately show ?thesis
    using np nc by simp
qed

section \<open>Signatures are never inspected\<close>

text \<open>
  Claim C10. Message acceptance never inspects the signature. Two messages that are
  equal except in their signature field produce, from the same engine state, the same
  state and the same emitted messages, and \<open>verifyMessage\<close> accepts a message exactly
  when its sender is in the validator set. A PREPARE or COMMIT message of a member of
  the validator set is accepted by its handler whatever signature \<open>sg\<close> it carries:
  the PREPARE vote is recorded in the prepare tally of its hash and the COMMIT message
  is emitted exactly when the count is then at or above the threshold; the COMMIT vote
  is recorded in the commit tally of its hash or, when the count is then at or above
  the threshold, finalizes the block. No signature leads to a rejection.
\<close>

theorem signature_not_inspected:
  "handleConsensusMessage this (message\<lparr>signature := sg\<rparr>) = handleConsensusMessage this message
   \<and> verifyMessage this (message\<lparr>signature := sg\<rparr>)
       = (ConsensusMessage.validatorId message |\<in>| validators this)
   \<and> (ConsensusMessage.validatorId message |\<in>| validators this \<and> type message = PREPARE \<longrightarrow>
        handleConsensusMessage this (message\<lparr>signature := sg\<rparr>)
          = (this\<lparr>prepareMessages := (prepareMessages this)(blockHash message \<mapsto>
                 finsert (ConsensusMessage.validatorId message)
                   (voters (prepareMessages this) (blockHash message)))\<rparr>,
             if requiredConsensus this
                  \<le> fcard (finsert (ConsensusMessage.validatorId message)
                        (voters (prepareMessages this) (blockHash message)))
             then [\<lparr> type = COMMIT, blockHeight = currentHeight this + 1,
                      blockHash = blockHash message,
                      ConsensusMessage.validatorId = validatorId this,
                      signature = ''placeholder_signature'' \<rparr>]
             else []))
   \<and> (ConsensusMessage.validatorId message |\<in>| validators this \<and> type message = COMMIT \<longrightarrow>
        handleConsensusMessage this (message\<lparr>signature := sg\<rparr>)
          = (if requiredConsensus this
                  \<le> fcard (finsert (ConsensusMessage.validatorId message)
                        (voters (commitMessages this) (blockHash message)))
             then (this\<lparr>currentHeight := currentHeight this + 1,
                        prepareMessages := Map.empty, commitMessages := Map.empty\<rparr>,
                   [\<lparr> type = NEW_ROUND, blockHeight = currentHeight this + 2,
                       blockHash = '''',
                       ConsensusMessage.validatorId = validatorId this, signature = '''' \<rparr>])
             else (this\<lparr>commitMessages := (commitMessages this)(blockHash message \<mapsto>
                        finsert (ConsensusMessage.validatorId message)
                          (voters (commitMessages this) (blockHash message)))\<rparr>, [])))"
  by (cases "type message") (simp_all add: engine_defs sign_def)

theorem signature_not_inspected_witness:
  "handleConsensusMessage validator1Consensus (msg PREPARE 1 ''h'' ''validator2'')
     = handleConsensusMessage validator1Consensus
         ((msg PREPARE 1 ''h'' ''validator2'')\<lparr>signature := ''forged''\<rparr>)
   \<and> verifyMessage validator1Consensus
       ((msg PREPARE 1 ''h'' ''validator2'')\<lparr>signature := ''forged''\<rparr>)
   \<and> handleConsensusMessage validator1Consensus
         ((msg PREPARE 1 ''h'' ''validator2'')\<lparr>signature := ''forged''\<rparr>)
       = (validator1Consensus\<lparr>prepareMessages := [''h'' \<mapsto> {|''validator2''|}]\<rparr>, [])
   \<and> handleConsensusMessage twoCommits
         ((msg COMMIT 1 ''h'' ''validator1'')\<lparr>signature := ''forged''\<rparr>)
       = (validator1Consensus\<lparr>currentHeight := 1\<rparr>,
          [\<lparr> type = NEW_ROUND, blockHeight = 2, blockHash = '''',
              ConsensusMessage.validatorId = ''validator1'', signature = '''' \<rparr>])"
proof -
  let ?p = "msg PREPARE 1 ''h'' ''validator2''"
  let ?c = "msg COMMIT 1 ''h'' ''validator1''"
  note P = signature_not_inspected
    [where this = validator1Consensus and message = ?p and sg = "''forged''"]
  note C = signature_not_inspected
    [where this = twoCommits and message = ?c and sg = "''forged''"]
  have p: "ConsensusMessage.validatorId ?p |\<in>| validators validator1Consensus"
    and tp: "type ?p = PREPARE"
    by (simp_all add: msg_def validator1Consensus_eq)
  have c: "ConsensusMessage.validatorId ?c |\<in>| validators twoCommits"
    and tc: "type ?c = COMMIT"
    by (simp_all add: msg_def twoCommits_eq validator1Consensus_eq)
  have fields: "blockHash ?p = ''h''" "ConsensusMessage.validatorId ?p = ''validator2''"
    "blockHash ?c = ''h''" "ConsensusMessage.validatorId ?c = ''validator1''"
    by (simp_all add: msg_def)
  have e: "handleConsensusMessage validator1Consensus ?p
             = handleConsensusMessage validator1Consensus (?p\<lparr>signature := ''forged''\<rparr>)"
    by (rule P [THEN conjunct1, symmetric])
  have a: "verifyMessage validator1Consensus (?p\<lparr>signature := ''forged''\<rparr>)"
    by (rule iffD2 [OF P [THEN conjunct2, THEN conjunct1] p])
  have rp: "handleConsensusMessage validator1Consensus (?p\<lparr>signature := ''forged''\<rparr>)
      = (validator1Consensus\<lparr>prepareMessages := (prepareMessages validator1Consensus)(''h'' \<mapsto>
             finsert ''validator2'' (voters (prepareMessages validator1Consensus) ''h''))\<rparr>,
         if requiredConsensus validator1Consensus
              \<le> fcard (finsert ''validator2'' (voters (prepareMessages validator1Consensus) ''h''))
         then [\<lparr> type = COMMIT, blockHeight = currentHeight validator1Consensus + 1,
                  blockHash = ''h'',
                  ConsensusMessage.validatorId = validatorId validator1Consensus,
                  signature = ''placeholder_signature'' \<rparr>]
         else [])"
    using P [THEN conjunct2, THEN conjunct2, THEN conjunct1, THEN mp, OF conjI [OF p tp]]
    by (simp only: fields)
  have vp: "(validator1Consensus\<lparr>prepareMessages := (prepareMessages validator1Consensus)(''h'' \<mapsto>
             finsert ''validator2'' (voters (prepareMessages validator1Consensus) ''h''))\<rparr>,
         if requiredConsensus validator1Consensus
              \<le> fcard (finsert ''validator2'' (voters (prepareMessages validator1Consensus) ''h''))
         then [\<lparr> type = COMMIT, blockHeight = currentHeight validator1Consensus + 1,
                  blockHash = ''h'',
                  ConsensusMessage.validatorId = validatorId validator1Consensus,
                  signature = ''placeholder_signature'' \<rparr>]
         else [])
      = (validator1Consensus\<lparr>prepareMessages := [''h'' \<mapsto> {|''validator2''|}]\<rparr>, [])"
    by (simp add: validator1Consensus_eq voters_def fcard_finsert_if fcard_fempty)
  have rc: "handleConsensusMessage twoCommits (?c\<lparr>signature := ''forged''\<rparr>)
      = (if requiredConsensus twoCommits
              \<le> fcard (finsert ''validator1'' (voters (commitMessages twoCommits) ''h''))
         then (twoCommits\<lparr>currentHeight := currentHeight twoCommits + 1,
                    prepareMessages := Map.empty, commitMessages := Map.empty\<rparr>,
               [\<lparr> type = NEW_ROUND, blockHeight = currentHeight twoCommits + 2,
                   blockHash = '''',
                   ConsensusMessage.validatorId = validatorId twoCommits, signature = '''' \<rparr>])
         else (twoCommits\<lparr>commitMessages := (commitMessages twoCommits)(''h'' \<mapsto>
                    finsert ''validator1'' (voters (commitMessages twoCommits) ''h''))\<rparr>, []))"
    using C [THEN conjunct2, THEN conjunct2, THEN conjunct2, THEN mp, OF conjI [OF c tc]]
    by (simp only: fields)
  have vc: "(if requiredConsensus twoCommits
              \<le> fcard (finsert ''validator1'' (voters (commitMessages twoCommits) ''h''))
         then (twoCommits\<lparr>currentHeight := currentHeight twoCommits + 1,
                    prepareMessages := Map.empty, commitMessages := Map.empty\<rparr>,
               [\<lparr> type = NEW_ROUND, blockHeight = currentHeight twoCommits + 2,
                   blockHash = '''',
                   ConsensusMessage.validatorId = validatorId twoCommits, signature = '''' \<rparr>])
         else (twoCommits\<lparr>commitMessages := (commitMessages twoCommits)(''h'' \<mapsto>
                    finsert ''validator1'' (voters (commitMessages twoCommits) ''h''))\<rparr>, []))
      = (validator1Consensus\<lparr>currentHeight := 1\<rparr>,
          [\<lparr> type = NEW_ROUND, blockHeight = 2, blockHash = '''',
              ConsensusMessage.validatorId = ''validator1'', signature = '''' \<rparr>])"
    by (simp add: twoCommits_eq validator1Consensus_eq voters_def fcard_finsert_if fcard_fempty)
  show ?thesis
    using e a trans [OF rp vp] trans [OF rc vc] by (simp only: simp_thms)
qed

end
